theory Spec2Isabelle
  imports Complex_Main "HOL-Library.Word"
begin

unbundle bit_operations_syntax

section \<open>Data model\<close>

text \<open>
  A \<open>jfloat\<close> is carried as its binary32 bit pattern and a \<open>jint\<close> is a 32-bit
  two's-complement integer, so the reinterpreting casts \<open>*(jint*)&arg1\<close> of the source
  are the identity on the model. \<open>+\<close> and \<open>-\<close> on words wrap modulo \<open>2 ^ 32\<close>; the signed
  comparisons of the source are \<open><s\<close>. A \<open>jdouble\<close> is a binary64 bit pattern.
\<close>

type_synonym jint = "32 word"
type_synonym jfloat = "32 word"
type_synonym jdouble = "64 word"

subsection \<open>IEEE-754 binary32 reading of a bit pattern\<close>

text \<open>One sign bit, eight exponent bits, twenty-three fraction bits.\<close>

definition sign_bit :: "jfloat \<Rightarrow> bool" where
  "sign_bit w = bit w 31"

definition expo :: "jfloat \<Rightarrow> nat" where
  "expo w = unat (take_bit 8 (drop_bit 23 w))"

definition mant :: "jfloat \<Rightarrow> nat" where
  "mant w = unat (take_bit 23 w)"

definition is_nan :: "jfloat \<Rightarrow> bool" where
  "is_nan w = (expo w = 255 \<and> mant w \<noteq> 0)"

definition is_inf :: "jfloat \<Rightarrow> bool" where
  "is_inf w = (expo w = 255 \<and> mant w = 0)"

definition is_finite :: "jfloat \<Rightarrow> bool" where
  "is_finite w = (expo w < 255)"

definition is_zero :: "jfloat \<Rightarrow> bool" where
  "is_zero w = (expo w = 0 \<and> mant w = 0)"

text \<open>
  The magnitude of a finite pattern in units of \<open>2 powr -149\<close> (the smallest subnormal):
  \<open>mant\<close> for a subnormal, \<open>(2 ^ 23 + mant) * 2 ^ (expo - 1)\<close> for a normal number.
\<close>

definition magn :: "jfloat \<Rightarrow> nat" where
  "magn w = (if expo w = 0 then mant w else (2 ^ 23 + mant w) * 2 ^ (expo w - 1))"

definition valof :: "jfloat \<Rightarrow> real" where
  "valof w = (if sign_bit w then - real (magn w) else real (magn w)) / 2 ^ 149"

text \<open>
  The numeric comparison \<open>a < b\<close> of two floats: false as soon as one of them is a NaN,
  minus infinity below and plus infinity above every other number.
\<close>

definition float_lt :: "jfloat \<Rightarrow> jfloat \<Rightarrow> bool" where
  "float_lt a b =
     (\<not> is_nan a \<and> \<not> is_nan b \<and>
      (if is_inf a then sign_bit a \<and> \<not> (is_inf b \<and> sign_bit b)
       else if is_inf b then \<not> sign_bit b
       else valof a < valof b))"

text \<open>Unary minus on a float flips the sign bit.\<close>

definition fneg :: "jfloat \<Rightarrow> jfloat" where
  "fneg w = w XOR 0x80000000"

definition pos_inf :: jfloat where
  "pos_inf = 0x7F800000"

section \<open>The single-precision routine\<close>

text \<open>The branch test \<open>(hx > 0) ^ (hx > hy)\<close> on the two signed integers.\<close>

definition away_test :: "jint \<Rightarrow> jint \<Rightarrow> bool" where
  "away_test hx hy = ((0 <s hx) \<noteq> (hy <s hx))"

definition jnextafterf :: "jfloat \<Rightarrow> jfloat \<Rightarrow> jfloat" where
  "jnextafterf arg1 arg2 =
     (let hx = arg1; hy = arg2 in
      if hx AND 0x7fffffff = 0 then (hy AND 0x80000000) OR 0x1
      else if away_test hx hy then hx + 1
      else hx - 1)"

text \<open>
  The same routine with the range of \<open>jint\<close> made explicit. The source computes
  \<open>hx += 1\<close> and \<open>hx -= 1\<close> on a signed 32-bit \<open>int\<close>; in C such a sum or difference has a
  value only when it lies between \<open>- 2 ^ 31\<close> and \<open>2 ^ 31 - 1\<close>, and leaving that range is
  recorded as a fault.
\<close>

datatype fault = SignedOverflow

definition jint_add :: "jint \<Rightarrow> jint \<Rightarrow> fault + jint" where
  "jint_add a b =
     (let s = sint a + sint b in
      if s < - 2147483648 \<or> 2147483647 < s then Inl SignedOverflow else Inr (a + b))"

definition jint_sub :: "jint \<Rightarrow> jint \<Rightarrow> fault + jint" where
  "jint_sub a b =
     (let s = sint a - sint b in
      if s < - 2147483648 \<or> 2147483647 < s then Inl SignedOverflow else Inr (a - b))"

definition jnextafterf_checked :: "jfloat \<Rightarrow> jfloat \<Rightarrow> fault + jfloat" where
  "jnextafterf_checked arg1 arg2 =
     (let hx = arg1; hy = arg2 in
      if hx AND 0x7fffffff = 0 then Inr ((hy AND 0x80000000) OR 0x1)
      else if away_test hx hy then jint_add hx 1
      else jint_sub hx 1)"

text \<open>Repeated application of \<open>x \<mapsto> nextafterf(x, +infinity)\<close>.\<close>

primrec climb :: "nat \<Rightarrow> jfloat \<Rightarrow> jfloat" where
  "climb 0 x = x"
| "climb (Suc n) x = climb n (jnextafterf x pos_inf)"

section \<open>The double-precision bindings\<close>

text \<open>
  The functions of the external mathematical library are not part of this layer. They are
  taken as a parameter: one field for each \<open>ieee_\<close> function that the bindings call.
\<close>

record fdlibm =
  ieee_sin :: "jdouble \<Rightarrow> jdouble"
  ieee_cos :: "jdouble \<Rightarrow> jdouble"
  ieee_tan :: "jdouble \<Rightarrow> jdouble"
  ieee_asin :: "jdouble \<Rightarrow> jdouble"
  ieee_acos :: "jdouble \<Rightarrow> jdouble"
  ieee_atan :: "jdouble \<Rightarrow> jdouble"
  ieee_exp :: "jdouble \<Rightarrow> jdouble"
  ieee_log :: "jdouble \<Rightarrow> jdouble"
  ieee_sqrt :: "jdouble \<Rightarrow> jdouble"
  ieee_remainder :: "jdouble \<Rightarrow> jdouble \<Rightarrow> jdouble"
  ieee_floor :: "jdouble \<Rightarrow> jdouble"
  ieee_ceil :: "jdouble \<Rightarrow> jdouble"
  ieee_rint :: "jdouble \<Rightarrow> jdouble"
  ieee_atan2 :: "jdouble \<Rightarrow> jdouble \<Rightarrow> jdouble"
  ieee_pow :: "jdouble \<Rightarrow> jdouble \<Rightarrow> jdouble"
  ieee_sinh :: "jdouble \<Rightarrow> jdouble"
  ieee_tanh :: "jdouble \<Rightarrow> jdouble"
  ieee_cosh :: "jdouble \<Rightarrow> jdouble"
  ieee_log10 :: "jdouble \<Rightarrow> jdouble"
  ieee_cbrt :: "jdouble \<Rightarrow> jdouble"
  ieee_expm1 :: "jdouble \<Rightarrow> jdouble"
  ieee_hypot :: "jdouble \<Rightarrow> jdouble \<Rightarrow> jdouble"
  ieee_log1p :: "jdouble \<Rightarrow> jdouble"
  ieee_nextafter :: "jdouble \<Rightarrow> jdouble \<Rightarrow> jdouble"

definition jsin :: "fdlibm \<Rightarrow> jdouble \<Rightarrow> jdouble" where
  "jsin lib a = ieee_sin lib a"

definition jcos :: "fdlibm \<Rightarrow> jdouble \<Rightarrow> jdouble" where
  "jcos lib a = ieee_cos lib a"

definition jtan :: "fdlibm \<Rightarrow> jdouble \<Rightarrow> jdouble" where
  "jtan lib a = ieee_tan lib a"

definition jasin :: "fdlibm \<Rightarrow> jdouble \<Rightarrow> jdouble" where
  "jasin lib a = ieee_asin lib a"

definition jacos :: "fdlibm \<Rightarrow> jdouble \<Rightarrow> jdouble" where
  "jacos lib a = ieee_acos lib a"

definition jatan :: "fdlibm \<Rightarrow> jdouble \<Rightarrow> jdouble" where
  "jatan lib a = ieee_atan lib a"

definition jexp :: "fdlibm \<Rightarrow> jdouble \<Rightarrow> jdouble" where
  "jexp lib a = ieee_exp lib a"

definition jlog :: "fdlibm \<Rightarrow> jdouble \<Rightarrow> jdouble" where
  "jlog lib a = ieee_log lib a"

definition jsqrt2 :: "fdlibm \<Rightarrow> jdouble \<Rightarrow> jdouble" where
  "jsqrt2 lib a = ieee_sqrt lib a"

definition jieee_remainder :: "fdlibm \<Rightarrow> jdouble \<Rightarrow> jdouble \<Rightarrow> jdouble" where
  "jieee_remainder lib a b = ieee_remainder lib a b"

definition jfloor :: "fdlibm \<Rightarrow> jdouble \<Rightarrow> jdouble" where
  "jfloor lib a = ieee_floor lib a"

definition jceil :: "fdlibm \<Rightarrow> jdouble \<Rightarrow> jdouble" where
  "jceil lib a = ieee_ceil lib a"

definition jrint :: "fdlibm \<Rightarrow> jdouble \<Rightarrow> jdouble" where
  "jrint lib a = ieee_rint lib a"

definition jatan2 :: "fdlibm \<Rightarrow> jdouble \<Rightarrow> jdouble \<Rightarrow> jdouble" where
  "jatan2 lib a b = ieee_atan2 lib a b"

definition jpow :: "fdlibm \<Rightarrow> jdouble \<Rightarrow> jdouble \<Rightarrow> jdouble" where
  "jpow lib a b = ieee_pow lib a b"

definition jsinh :: "fdlibm \<Rightarrow> jdouble \<Rightarrow> jdouble" where
  "jsinh lib a = ieee_sinh lib a"

definition jtanh :: "fdlibm \<Rightarrow> jdouble \<Rightarrow> jdouble" where
  "jtanh lib a = ieee_tanh lib a"

definition jcosh :: "fdlibm \<Rightarrow> jdouble \<Rightarrow> jdouble" where
  "jcosh lib a = ieee_cosh lib a"

definition jlog10 :: "fdlibm \<Rightarrow> jdouble \<Rightarrow> jdouble" where
  "jlog10 lib a = ieee_log10 lib a"

definition jcbrt :: "fdlibm \<Rightarrow> jdouble \<Rightarrow> jdouble" where
  "jcbrt lib a = ieee_cbrt lib a"

definition jexpm1 :: "fdlibm \<Rightarrow> jdouble \<Rightarrow> jdouble" where
  "jexpm1 lib a = ieee_expm1 lib a"

definition jhypot :: "fdlibm \<Rightarrow> jdouble \<Rightarrow> jdouble \<Rightarrow> jdouble" where
  "jhypot lib a b = ieee_hypot lib a b"

definition jlog1p :: "fdlibm \<Rightarrow> jdouble \<Rightarrow> jdouble" where
  "jlog1p lib a = ieee_log1p lib a"

definition jnextafter :: "fdlibm \<Rightarrow> jdouble \<Rightarrow> jdouble \<Rightarrow> jdouble" where
  "jnextafter lib a b = ieee_nextafter lib a b"

text \<open>
  Two libraries that differ in \<open>ieee_nextafter\<close>: the first returns its first argument,
  the second its second argument; every other function is the identity on its first argument.
\<close>

definition lib_with :: "(jdouble \<Rightarrow> jdouble \<Rightarrow> jdouble) \<Rightarrow> fdlibm" where
  "lib_with f =
     \<lparr> ieee_sin = (\<lambda>a. a), ieee_cos = (\<lambda>a. a), ieee_tan = (\<lambda>a. a),
       ieee_asin = (\<lambda>a. a), ieee_acos = (\<lambda>a. a), ieee_atan = (\<lambda>a. a),
       ieee_exp = (\<lambda>a. a), ieee_log = (\<lambda>a. a), ieee_sqrt = (\<lambda>a. a),
       ieee_remainder = (\<lambda>a b. a), ieee_floor = (\<lambda>a. a), ieee_ceil = (\<lambda>a. a),
       ieee_rint = (\<lambda>a. a), ieee_atan2 = (\<lambda>a b. a), ieee_pow = (\<lambda>a b. a),
       ieee_sinh = (\<lambda>a. a), ieee_tanh = (\<lambda>a. a), ieee_cosh = (\<lambda>a. a),
       ieee_log10 = (\<lambda>a. a), ieee_cbrt = (\<lambda>a. a), ieee_expm1 = (\<lambda>a. a),
       ieee_hypot = (\<lambda>a b. a), ieee_log1p = (\<lambda>a. a), ieee_nextafter = f \<rparr>"

definition lib_first :: fdlibm where
  "lib_first = lib_with (\<lambda>a b. a)"

definition lib_second :: fdlibm where
  "lib_second = lib_with (\<lambda>a b. b)"

section \<open>Auxiliary notions for the proofs\<close>

text \<open>The magnitude bits of a pattern (everything but the sign bit), as a number.\<close>

definition mbits :: "jfloat \<Rightarrow> nat" where
  "mbits w = unat w mod 2147483648"

text \<open>The scaled magnitude as a function of the magnitude bits alone.\<close>

definition smag :: "nat \<Rightarrow> nat" where
  "smag k = (if k div 8388608 = 0 then k mod 8388608
             else (8388608 + k mod 8388608) * 2 ^ (k div 8388608 - 1))"

text \<open>The signed scaled value: \<open>valof w * 2 ^ 149\<close> as an integer.\<close>

definition skey :: "jfloat \<Rightarrow> int" where
  "skey w = (if sign_bit w then - int (smag (mbits w)) else int (smag (mbits w)))"

text \<open>
  \<open>succ_of x r\<close>: \<open>r\<close> is strictly greater than \<open>x\<close> and no float lies strictly between
  the two.
\<close>

definition succ_of :: "jfloat \<Rightarrow> jfloat \<Rightarrow> bool" where
  "succ_of x r = (float_lt x r \<and> (\<forall>z. \<not> (float_lt x z \<and> float_lt z r)))"

text \<open>The climb from \<open>x\<close> arrives at plus infinity, through finite values only.\<close>

definition reaches :: "jfloat \<Rightarrow> bool" where
  "reaches x = (\<exists>n. climb n x = pos_inf \<and> (\<forall>k<n. is_finite (climb k x)))"

text \<open>The comparison of magnitudes \<open>|a| < |b|\<close> of two finite floats.\<close>

definition mag_lt :: "jfloat \<Rightarrow> jfloat \<Rightarrow> bool" where
  "mag_lt a b = (\<bar>valof a\<bar> < \<bar>valof b\<bar>)"

section \<open>Bit patterns as numbers\<close>

lemma unat_lt32: "unat (w::32 word) < 4294967296"
  using unsigned_less [of w, where 'a = nat] by simp

lemma sign_bit_nat: "sign_bit w = (2147483648 \<le> unat w)"
proof -
  have b: "unat w < 4294967296" by (rule unat_lt32)
  have "bit (unat w) 31 = bit w 31" by (simp add: bit_unsigned_iff)
  then have "sign_bit w = odd (unat w div 2 ^ 31)"
    unfolding sign_bit_def by (simp only: bit_iff_odd)
  also have "\<dots> = (2147483648 \<le> unat w)"
  proof (cases "unat w < 2147483648")
    case True then show ?thesis by simp
  next
    case False
    with b have "unat w div 2147483648 = 1" by simp
    with False show ?thesis by simp
  qed
  finally show ?thesis .
qed

lemma uint_lt32: "uint (w::32 word) < 4294967296"
  using unsigned_less [of w, where 'a = int] by simp

lemma sint_uint32: "sint (w::32 word) = (if uint w < 2147483648 then uint w else uint w - 4294967296)"
proof -
  have b: "uint w < 4294967296" by (rule uint_lt32)
  have c: "0 \<le> uint w" by simp
  have s: "sint w = (uint w + 2147483648) mod 4294967296 - 2147483648"
    by (simp add: sint_uint signed_take_bit_eq_take_bit_shift take_bit_eq_mod)
  show ?thesis
  proof (cases "uint w < 2147483648")
    case True
    with c have "(uint w + 2147483648) mod 4294967296 = uint w + 2147483648"
      by (intro mod_pos_pos_trivial) simp_all
    with True s show ?thesis by simp
  next
    case False
    have "uint w + 2147483648 = uint w - 2147483648 + 4294967296"
      by simp
    then have "(uint w + 2147483648) mod 4294967296 = (uint w - 2147483648 + 4294967296) mod 4294967296"
      by (rule arg_cong)
    also have "\<dots> = (uint w - 2147483648) mod 4294967296"
      by (rule mod_add_self2)
    also have "\<dots> = uint w - 2147483648"
      using False b by (intro mod_pos_pos_trivial) simp_all
    finally show ?thesis using False s by simp
  qed
qed

lemma sint_nat: "sint (w::32 word) = (if unat w < 2147483648 then int (unat w) else int (unat w) - 4294967296)"
proof -
  have "(unat w < 2147483648) = (int (unat w) < int 2147483648)"
    by (simp only: of_nat_less_iff)
  then have "(unat w < 2147483648) = (uint w < 2147483648)"
    by simp
  then show ?thesis by (simp add: sint_uint32)
qed

lemma expo_nat: "expo w = (unat w div 8388608) mod 256"
  by (simp add: expo_def take_bit_eq_mod drop_bit_eq_div unat_mod unat_div)

lemma mant_nat: "mant w = unat w mod 8388608"
  by (simp add: mant_def take_bit_eq_mod unat_mod)

lemma and_mask31: "unat (w AND (0x7fffffff::32 word)) = unat w mod 2147483648"
proof -
  have "(0x7fffffff::32 word) = mask 31" by (simp add: mask_eq_exp_minus_1)
  then have "w AND 0x7fffffff = take_bit 31 w" by (simp add: take_bit_eq_mask)
  then show ?thesis by (simp add: take_bit_eq_mod unat_mod)
qed

section \<open>The encoding is monotone in the magnitude bits\<close>

lemma smag_Suc: "smag k < smag (Suc k)"
proof (cases "Suc (k mod 8388608) = 8388608")
  case False
  then have m: "Suc k mod 8388608 = Suc (k mod 8388608)" by (simp add: mod_Suc)
  then have d: "Suc k div 8388608 = k div 8388608" by (simp add: div_Suc)
  show ?thesis unfolding smag_def m d by simp
next
  case True
  then have m: "Suc k mod 8388608 = 0" by (simp add: mod_Suc)
  then have d: "Suc k div 8388608 = Suc (k div 8388608)" by (simp add: div_Suc)
  from True have km: "k mod 8388608 = 8388607" by simp
  show ?thesis
  proof (cases "k div 8388608 = 0")
    case True
    then show ?thesis unfolding smag_def m d km by simp
  next
    case False
    then obtain e where e: "k div 8388608 = Suc e" by (cases "k div 8388608") auto
    have "(8388608 + 8388607) * 2 ^ e < (16777216::nat) * 2 ^ e" by simp
    then show ?thesis unfolding smag_def m d km e by simp
  qed
qed

lemma smag_strict: "strict_mono smag"
  by (rule strict_monoI) (rule lift_Suc_mono_less [of smag], rule smag_Suc)

lemma smag_less_iff: "smag k < smag l \<longleftrightarrow> k < l"
  by (rule strict_mono_less [OF smag_strict])

lemma smag_0: "smag 0 = 0" by (simp add: smag_def)

lemma mbits_div: "(u mod 2147483648) div 8388608 = (u div 8388608) mod (256::nat)"
proof -
  have "(2147483648::nat) = 8388608 * 256" by simp
  then show ?thesis by (simp only: mod_mult2_eq)
qed

lemma mbits_mod: "(u mod 2147483648) mod 8388608 = u mod (8388608::nat)"
proof -
  have "(8388608::nat) dvd 2147483648" by simp
  then show ?thesis by (rule mod_mod_cancel)
qed

lemma magn_smag: "magn w = smag (unat w mod 2147483648)"
proof -
  have "(2::nat) ^ 23 = 8388608" by simp
  then show ?thesis
    by (simp only: magn_def smag_def expo_nat mant_nat mbits_div mbits_mod)
qed

lemma mbits_lt: "mbits w < 2147483648"
  by (simp add: mbits_def)

lemma mbits_low: "unat w < 2147483648 \<Longrightarrow> mbits w = unat w"
  by (simp add: mbits_def)

lemma mbits_high: "2147483648 \<le> unat w \<Longrightarrow> mbits w = unat w - 2147483648"
proof -
  assume h: "2147483648 \<le> unat w"
  have "unat w < 4294967296" by (rule unat_lt32)
  with h have "unat w - 2147483648 < 2147483648" by simp
  then have "(unat w - 2147483648) mod 2147483648 = unat w - 2147483648" by simp
  moreover have "unat w mod 2147483648 = (unat w - 2147483648) mod 2147483648"
    using h by (simp add: le_mod_geq)
  ultimately show ?thesis by (simp add: mbits_def)
qed

lemma fields:
  "expo w = mbits w div 8388608" "mant w = mbits w mod 8388608"
  by (simp_all only: expo_nat mant_nat mbits_def mbits_div mbits_mod)

lemma is_finite_iff: "is_finite w \<longleftrightarrow> mbits w < 2139095040"
proof -
  have "mbits w div 8388608 < 255 \<longleftrightarrow> mbits w < 255 * 8388608"
    by (rule div_less_iff_less_mult) simp
  then show ?thesis unfolding is_finite_def fields by simp
qed

lemma is_inf_iff: "is_inf w \<longleftrightarrow> mbits w = 2139095040"
proof
  assume "is_inf w"
  then have "mbits w div 8388608 = 255" "mbits w mod 8388608 = 0"
    unfolding is_inf_def fields by simp_all
  moreover have "mbits w = 8388608 * (mbits w div 8388608) + mbits w mod 8388608" by simp
  ultimately show "mbits w = 2139095040" by simp
next
  assume "mbits w = 2139095040"
  then show "is_inf w" unfolding is_inf_def fields by simp
qed

lemma is_nan_iff: "is_nan w \<longleftrightarrow> 2139095040 < mbits w"
proof
  assume "is_nan w"
  then have "mbits w div 8388608 = 255" "0 < mbits w mod 8388608"
    unfolding is_nan_def fields by simp_all
  moreover have "mbits w = 8388608 * (mbits w div 8388608) + mbits w mod 8388608" by simp
  ultimately show "2139095040 < mbits w" by simp
next
  assume h: "2139095040 < mbits w"
  have b: "mbits w < 2147483648" by (rule mbits_lt)
  have d: "mbits w div 8388608 = 255"
    by (rule div_nat_eqI) (use h b in simp_all)
  have "mbits w = 8388608 * (mbits w div 8388608) + mbits w mod 8388608" by simp
  with d h have "0 < mbits w mod 8388608" by simp
  with d show "is_nan w" unfolding is_nan_def fields by simp
qed

lemma not_nan_cases: "\<not> is_nan w \<longleftrightarrow> is_finite w \<or> is_inf w"
  unfolding is_nan_iff is_finite_iff is_inf_iff by auto

lemma valof_skey: "valof w = real_of_int (skey w) / 2 ^ 149"
  by (simp add: valof_def skey_def magn_smag mbits_def)

lemma valof_less_iff: "valof a < valof b \<longleftrightarrow> skey a < skey b"
  by (simp add: valof_skey divide_less_cancel)

lemma skey_bounds:
  assumes "\<not> is_nan w"
  shows "- int (smag 2139095040) \<le> skey w" "skey w \<le> int (smag 2139095040)"
proof -
  from assms have "mbits w \<le> 2139095040" by (simp add: is_nan_iff)
  then have "smag (mbits w) \<le> smag 2139095040"
    by (rule strict_mono_mono [OF smag_strict, THEN monoD])
  then show "- int (smag 2139095040) \<le> skey w" "skey w \<le> int (smag 2139095040)"
    by (simp_all add: skey_def)
qed

lemma skey_inf: "is_inf w \<Longrightarrow> skey w = (if sign_bit w then - int (smag 2139095040) else int (smag 2139095040))"
  by (simp add: skey_def is_inf_iff)

lemma skey_top: "\<not> is_nan w \<Longrightarrow> skey w = int (smag 2139095040) \<longleftrightarrow> is_inf w \<and> \<not> sign_bit w"
proof -
  have p: "0 < smag 2139095040" using smag_less_iff [of 0 2139095040] by (simp add: smag_0)
  have "smag (mbits w) = smag 2139095040 \<longleftrightarrow> mbits w = 2139095040"
    by (rule strict_mono_eq [OF smag_strict])
  with p show ?thesis by (auto simp: skey_def is_inf_iff)
qed

lemma skey_bot: "\<not> is_nan w \<Longrightarrow> skey w = - int (smag 2139095040) \<longleftrightarrow> is_inf w \<and> sign_bit w"
proof -
  have p: "0 < smag 2139095040" using smag_less_iff [of 0 2139095040] by (simp add: smag_0)
  have "smag (mbits w) = smag 2139095040 \<longleftrightarrow> mbits w = 2139095040"
    by (rule strict_mono_eq [OF smag_strict])
  with p show ?thesis by (auto simp: skey_def is_inf_iff)
qed

lemma float_lt_key:
  assumes a: "\<not> is_nan a" and b: "\<not> is_nan b"
  shows "float_lt a b \<longleftrightarrow> skey a < skey b"
proof (cases "is_inf a")
  case True
  show ?thesis
  proof (cases "sign_bit a")
    case True
    with \<open>is_inf a\<close> have "skey a = - int (smag 2139095040)" by (simp add: skey_inf)
    moreover have "- int (smag 2139095040) < skey b \<longleftrightarrow> \<not> (is_inf b \<and> sign_bit b)"
      using skey_bounds(1) [OF b] skey_bot [OF b] by linarith
    ultimately show ?thesis using a b True \<open>is_inf a\<close> by (simp add: float_lt_def)
  next
    case False
    with \<open>is_inf a\<close> have "skey a = int (smag 2139095040)" by (simp add: skey_inf)
    with skey_bounds(2) [OF b] have "\<not> skey a < skey b" by simp
    then show ?thesis using a b False \<open>is_inf a\<close> by (simp add: float_lt_def)
  qed
next
  case False
  show ?thesis
  proof (cases "is_inf b")
    case True
    have na: "skey a \<noteq> int (smag 2139095040)" using skey_top [OF a] False by simp
    show ?thesis
    proof (cases "sign_bit b")
      case True
      with \<open>is_inf b\<close> have "skey b = - int (smag 2139095040)" by (simp add: skey_inf)
      with skey_bounds(1) [OF a] have "\<not> skey a < skey b" by simp
      then show ?thesis using a b True False \<open>is_inf b\<close> by (simp add: float_lt_def)
    next
      case sb: False
      with \<open>is_inf b\<close> have "skey b = int (smag 2139095040)" by (simp add: skey_inf)
      with skey_bounds(2) [OF a] na have "skey a < skey b" by simp
      then show ?thesis using a b sb False \<open>is_inf b\<close> by (simp add: float_lt_def)
    qed
  next
    case nb: False
    then show ?thesis using a b False by (simp add: float_lt_def valof_less_iff)
  qed
qed

lemma float_lt_nan: "float_lt a b \<Longrightarrow> \<not> is_nan a \<and> \<not> is_nan b"
  by (simp add: float_lt_def)

section \<open>One step towards plus infinity\<close>

lemma and_mask_zero_iff: "(w AND (0x7fffffff::32 word) = 0) \<longleftrightarrow> mbits w = 0"
proof -
  have "(w AND 0x7fffffff = 0) \<longleftrightarrow> unat (w AND 0x7fffffff) = 0"
    by (simp only: unat_eq_0)
  then show ?thesis by (simp only: and_mask31 mbits_def)
qed

lemma unat_pos_inf: "unat pos_inf = 2139095040"
  by (simp add: pos_inf_def)

lemma pos_inf_and: "(pos_inf AND 0x80000000) OR 1 = 1"
  by (simp add: pos_inf_def)

lemma up_low:
  assumes "unat x < 2139095040"
  shows "jnextafterf x pos_inf = x + 1"
proof (cases "unat x = 0")
  case True
  then have "x = 0" by (simp only: unat_eq_0)
  then show ?thesis by (simp add: jnextafterf_def pos_inf_and)
next
  case False
  from assms have m: "mbits x = unat x" by (simp add: mbits_low)
  with False have nz: "x AND 0x7fffffff \<noteq> 0" by (simp add: and_mask_zero_iff)
  obtain u where u: "unat x = u" by simp
  from assms False have ub: "0 < u" "u < 2139095040" by (simp_all add: u)
  have sp: "sint pos_inf = 2139095040"
    by (simp add: sint_nat unat_pos_inf)
  have "away_test x pos_inf"
    unfolding away_test_def word_sless_alt sint_nat [of x] sp u using ub by simp
  with nz show ?thesis by (simp add: jnextafterf_def)
qed

lemma up_negzero: "jnextafterf 0x80000000 pos_inf = 1"
  by (simp add: jnextafterf_def pos_inf_def)

lemma up_neg:
  assumes "2147483648 < unat x"
  shows "jnextafterf x pos_inf = x - 1"
proof -
  from assms have m: "mbits x = unat x - 2147483648" by (simp add: mbits_high)
  with assms have nz: "x AND 0x7fffffff \<noteq> 0" by (simp add: and_mask_zero_iff)
  obtain u where u: "unat x = u" by simp
  have "unat x < 4294967296" by (rule unat_lt32)
  with assms have ub: "2147483648 < u" "u < 4294967296" by (simp_all add: u)
  have sp: "sint pos_inf = 2139095040"
    by (simp add: sint_nat unat_pos_inf)
  have "\<not> away_test x pos_inf"
    unfolding away_test_def word_sless_alt sint_nat [of x] sp u using ub by simp
  with nz show ?thesis by (simp add: jnextafterf_def)
qed

lemma unat_succ: "unat (x::32 word) < 4294967295 \<Longrightarrow> unat (x + 1) = Suc (unat x)"
proof -
  assume h: "unat x < 4294967295"
  have "unat x + unat (1::32 word) < 2 ^ LENGTH(32)" using h by simp
  then have "unat (x + 1) = unat x + unat (1::32 word)" by (simp only: unat_add_lem)
  then show ?thesis by simp
qed

lemma unat_pred: "0 < unat (x::32 word) \<Longrightarrow> unat (x - 1) = unat x - 1"
proof -
  assume "0 < unat x"
  then have "x \<noteq> 0" by auto
  then show ?thesis by (rule unat_minus_one)
qed

lemma sign_low: "unat w < 2147483648 \<Longrightarrow> \<not> sign_bit w"
  by (simp add: sign_bit_nat)

lemma skey_low: "unat w < 2147483648 \<Longrightarrow> skey w = int (smag (unat w))"
  by (simp add: skey_def sign_bit_nat mbits_low)

lemma skey_high: "2147483648 \<le> unat w \<Longrightarrow> skey w = - int (smag (unat w - 2147483648))"
  by (simp add: skey_def sign_bit_nat mbits_high)

lemma skey_sign: "skey w < 0 \<Longrightarrow> sign_bit w" "0 < skey w \<Longrightarrow> \<not> sign_bit w"
  by (auto simp: skey_def split: if_splits)

lemma between_pos:
  assumes "int (smag k) < skey z" "skey z < int (smag (Suc k))"
  shows False
proof -
  from assms(1) have "0 < skey z" by simp
  then have "\<not> sign_bit z" by (rule skey_sign)
  then have "skey z = int (smag (mbits z))" by (simp add: skey_def)
  with assms have "smag k < smag (mbits z)" "smag (mbits z) < smag (Suc k)" by simp_all
  then have "k < mbits z" "mbits z < Suc k" by (simp_all only: smag_less_iff)
  then show False by simp
qed

lemma between_neg:
  assumes "- int (smag (Suc k)) < skey z" "skey z < - int (smag k)"
  shows False
proof -
  from assms(2) have "skey z < 0" by simp
  then have "sign_bit z" by (rule skey_sign)
  then have "skey z = - int (smag (mbits z))" by (simp add: skey_def)
  with assms have "smag k < smag (mbits z)" "smag (mbits z) < smag (Suc k)" by simp_all
  then have "k < mbits z" "mbits z < Suc k" by (simp_all only: smag_less_iff)
  then show False by simp
qed

lemma succ_ofI:
  assumes "\<not> is_nan x" "\<not> is_nan r" "skey x < skey r"
    and "\<And>z. skey x < skey z \<Longrightarrow> skey z < skey r \<Longrightarrow> False"
  shows "succ_of x r"
  unfolding succ_of_def
proof (intro conjI allI notI)
  show "float_lt x r" using assms(1-3) by (simp add: float_lt_key)
next
  fix z assume h: "float_lt x z \<and> float_lt z r"
  then have "\<not> is_nan z" by (simp add: float_lt_def)
  with h assms(1,2) have "skey x < skey z" "skey z < skey r" by (simp_all add: float_lt_key)
  then show False by (rule assms(4))
qed

lemma step_ok:
  assumes fin: "is_finite x"
  shows "succ_of x (jnextafterf x pos_inf)"
proof -
  from fin have nx: "\<not> is_nan x" by (simp add: not_nan_cases)
  have b: "unat x < 4294967296" by (rule unat_lt32)
  consider (low) "unat x < 2139095040" | (mid) "2139095040 \<le> unat x" "unat x < 2147483648"
    | (nz) "unat x = 2147483648" | (neg) "2147483648 < unat x" by linarith
  then show ?thesis
  proof cases
    case low
    then have r: "jnextafterf x pos_inf = x + 1" by (rule up_low)
    from low have ur: "unat (x + 1) = Suc (unat x)" by (simp add: unat_succ)
    with low have lr: "unat (x + 1) < 2147483648" by simp
    then have "mbits (x + 1) = unat (x + 1)" by (rule mbits_low)
    with ur low have nr: "\<not> is_nan (x + 1)" by (simp add: is_nan_iff)
    from low have kx: "skey x = int (smag (unat x))" by (simp add: skey_low)
    from lr have kr: "skey (x + 1) = int (smag (Suc (unat x)))" by (simp add: skey_low ur)
    show ?thesis unfolding r
    proof (rule succ_ofI [OF nx nr])
      show "skey x < skey (x + 1)" unfolding kx kr by (simp add: smag_Suc)
    next
      fix z assume "skey x < skey z" "skey z < skey (x + 1)"
      then show False unfolding kx kr by (rule between_pos)
    qed
  next
    case mid
    then have "mbits x = unat x" by (simp add: mbits_low)
    with mid fin show ?thesis by (simp add: is_finite_iff)
  next
    case nz
    have "unat x = unat (0x80000000::32 word)" using nz by simp
    then have x: "x = 0x80000000" by (simp only: word_unat_eq_iff)
    have kx: "skey x = - int (smag 0)" using nz by (simp add: skey_high)
    have kr: "skey (1::32 word) = int (smag (Suc 0))" by (simp add: skey_low)
    have nr: "\<not> is_nan (1::32 word)" by (simp add: is_nan_iff mbits_low)
    have r: "jnextafterf x pos_inf = 1" unfolding x by (rule up_negzero)
    show ?thesis unfolding r
    proof (rule succ_ofI [OF nx nr])
      show "skey x < skey (1::32 word)" unfolding kx kr using smag_Suc [of 0] by (simp add: smag_0)
    next
      fix z assume "skey x < skey z" "skey z < skey (1::32 word)"
      then have "int (smag 0) < skey z" "skey z < int (smag (Suc 0))"
        unfolding kx kr by (simp_all add: smag_0)
      then show False by (rule between_pos)
    qed
  next
    case neg
    then have r: "jnextafterf x pos_inf = x - 1" by (rule up_neg)
    from neg obtain m where m: "unat x = 2147483648 + Suc m"
      by (metis add_Suc_right less_imp_Suc_add)
    from neg have ur: "unat (x - 1) = unat x - 1" by (simp add: unat_pred)
    with m have ur': "unat (x - 1) = 2147483648 + m" by simp
    from m have kx: "skey x = - int (smag (Suc m))" by (simp add: skey_high)
    from ur' have kr: "skey (x - 1) = - int (smag m)" by (simp add: skey_high)
    from fin m have "Suc m < 2139095040" by (simp add: is_finite_iff mbits_high)
    with ur' have nr: "\<not> is_nan (x - 1)" by (simp add: is_nan_iff mbits_high)
    show ?thesis unfolding r
    proof (rule succ_ofI [OF nx nr])
      show "skey x < skey (x - 1)" unfolding kx kr by (simp add: smag_Suc)
    next
      fix z assume "skey x < skey z" "skey z < skey (x - 1)"
      then show False unfolding kx kr by (rule between_neg)
    qed
  qed
qed

section \<open>The climb to plus infinity\<close>

lemma reaches_step:
  assumes "is_finite x" "reaches (jnextafterf x pos_inf)"
  shows "reaches x"
proof -
  from assms(2) obtain n where n: "climb n (jnextafterf x pos_inf) = pos_inf"
    "\<forall>k<n. is_finite (climb k (jnextafterf x pos_inf))" unfolding reaches_def by blast
  have "climb (Suc n) x = pos_inf" using n(1) by simp
  moreover have "\<forall>k<Suc n. is_finite (climb k x)"
  proof (intro allI impI)
    fix k assume "k < Suc n"
    then show "is_finite (climb k x)" using assms(1) n(2) by (cases k) simp_all
  qed
  ultimately show ?thesis unfolding reaches_def by blast
qed

lemma reaches_low: "unat x + d = 2139095040 \<Longrightarrow> reaches x"
proof (induction d arbitrary: x)
  case 0
  then have "unat x = unat pos_inf" by (simp add: unat_pos_inf)
  then have "x = pos_inf" by (simp only: word_unat_eq_iff)
  then have "climb 0 x = pos_inf \<and> (\<forall>k<0. is_finite (climb k x))" by simp
  then show ?case unfolding reaches_def by blast
next
  case (Suc d)
  then have low: "unat x < 2139095040" by simp
  then have fin: "is_finite x" by (simp add: is_finite_iff mbits_low)
  from low have "unat (x + 1) = Suc (unat x)" by (simp add: unat_succ)
  with Suc.prems have "unat (x + 1) + d = 2139095040" by simp
  then have "reaches (x + 1)" by (rule Suc.IH)
  then have "reaches (jnextafterf x pos_inf)" by (simp only: up_low [OF low])
  with fin show ?case by (rule reaches_step)
qed

lemma reaches_neg: "unat x = 2147483648 + m \<Longrightarrow> m < 2139095040 \<Longrightarrow> reaches x"
proof (induction m arbitrary: x)
  case 0
  then have "unat x = unat (0x80000000::32 word)" by simp
  then have x: "x = 0x80000000" by (simp only: word_unat_eq_iff)
  have fin: "is_finite x" using 0 by (simp add: is_finite_iff mbits_high)
  have "unat (1::32 word) + 2139095039 = 2139095040" by simp
  then have "reaches (1::32 word)" by (rule reaches_low)
  then have "reaches (jnextafterf x pos_inf)" by (simp only: x up_negzero)
  with fin show ?case by (rule reaches_step)
next
  case (Suc m)
  then have neg: "2147483648 < unat x" by simp
  from Suc.prems have fin: "is_finite x" by (simp add: is_finite_iff mbits_high)
  from neg have "unat (x - 1) = unat x - 1" by (simp add: unat_pred)
  with Suc.prems have "unat (x - 1) = 2147483648 + m" by simp
  moreover from Suc.prems have "m < 2139095040" by simp
  ultimately have "reaches (x - 1)" by (rule Suc.IH)
  then have "reaches (jnextafterf x pos_inf)" by (simp only: up_neg [OF neg])
  with fin show ?case by (rule reaches_step)
qed

lemma finite_reaches: "is_finite x \<Longrightarrow> reaches x"
proof (cases "unat x < 2147483648")
  case True
  assume "is_finite x"
  with True have "unat x < 2139095040" by (simp add: is_finite_iff mbits_low)
  then have "unat x + (2139095040 - unat x) = 2139095040" by simp
  then show ?thesis by (rule reaches_low)
next
  case False
  assume fin: "is_finite x"
  from False have h: "2147483648 \<le> unat x" by simp
  then have "unat x = 2147483648 + (unat x - 2147483648)" by simp
  moreover from fin h have "unat x - 2147483648 < 2139095040" by (simp add: is_finite_iff mbits_high)
  ultimately show ?thesis by (rule reaches_neg)
qed

lemma climb_Suc_right: "climb (Suc n) x = jnextafterf (climb n x) pos_inf"
  by (induction n arbitrary: x) simp_all

lemma float_lt_trans: "float_lt a b \<Longrightarrow> float_lt b c \<Longrightarrow> float_lt a c"
proof -
  assume h: "float_lt a b" "float_lt b c"
  then have n: "\<not> is_nan a" "\<not> is_nan b" "\<not> is_nan c" by (simp_all add: float_lt_def)
  with h have "skey a < skey b" "skey b < skey c" by (simp_all add: float_lt_key)
  then have "skey a < skey c" by simp
  with n show ?thesis by (simp add: float_lt_key)
qed

lemma climb_increasing:
  assumes "\<forall>k<n. float_lt (climb k x) (climb (Suc k) x)"
  shows "i < j \<Longrightarrow> j \<le> n \<Longrightarrow> float_lt (climb i x) (climb j x)"
proof (induction j)
  case 0
  then show ?case by simp
next
  case (Suc j)
  from Suc.prems have s: "float_lt (climb j x) (climb (Suc j) x)" using assms by simp
  show ?case
  proof (cases "i = j")
    case True
    with s show ?thesis by simp
  next
    case False
    with Suc.prems have "i < j" "j \<le> n" by simp_all
    then have "float_lt (climb i x) (climb j x)" by (rule Suc.IH)
    then show ?thesis using s by (rule float_lt_trans)
  qed
qed

lemma sign_mask: "(d::32 word) AND 0x80000000 = (if sign_bit d then 0x80000000 else 0)"
proof -
  have g: "d AND 2 ^ n = (if bit d n then 2 ^ n else 0)" for n
    by (rule bit_word_eqI) (auto simp: bit_and_iff bit_exp_iff)
  show ?thesis using g [of 31] by (simp add: sign_bit_def)
qed

lemma sign_or: "((d::32 word) AND 0x80000000) OR 1 = (if sign_bit d then 0x80000001 else 1)"
  by (simp add: sign_mask)

lemma is_zero_iff: "is_zero w \<longleftrightarrow> w AND 0x7fffffff = 0"
proof -
  have "is_zero w \<longleftrightarrow> mbits w = 0"
    unfolding is_zero_def fields by (auto simp: div_eq_0_iff)
  then show ?thesis by (simp add: and_mask_zero_iff)
qed

section \<open>Signed arithmetic on the pattern\<close>

lemma sint_bounds32: "- 2147483648 \<le> sint (w::32 word)" "sint (w::32 word) < 2147483648"
  using sint_ge [of w] sint_lt [of w] by simp_all

lemma sint_max_eq: "sint (w::32 word) = 2147483647 \<Longrightarrow> w = 0x7fffffff"
proof -
  assume h: "sint w = 2147483647"
  have "unat w < 2147483648"
  proof (rule ccontr)
    assume "\<not> unat w < 2147483648"
    then have "sint w = int (unat w) - 4294967296" by (simp add: sint_nat)
    moreover have "unat w < 4294967296" by (rule unat_lt32)
    ultimately have "sint w < 0" by linarith
    with h show False by simp
  qed
  then have "sint w = int (unat w)" by (simp add: sint_nat)
  with h have "int (unat w) = int 2147483647" by simp
  then have "unat w = 2147483647" by (simp only: of_nat_eq_iff)
  then have "unat w = unat (0x7fffffff::32 word)" by simp
  then show ?thesis by (simp only: word_unat_eq_iff)
qed

lemma sint_min_eq: "sint (w::32 word) = - 2147483648 \<Longrightarrow> w AND 0x7fffffff = 0"
proof -
  assume h: "sint w = - 2147483648"
  obtain u where u: "unat w = u" by simp
  have b: "u < 4294967296" using unat_lt32 [of w] by (simp add: u)
  from h have "u = 2147483648" unfolding sint_nat [of w] u using b by (auto split: if_splits)
  then have "mbits w = 0" by (simp add: mbits_def u)
  then show ?thesis by (simp only: and_mask_zero_iff)
qed

lemma sint_succ: "sint (w::32 word) \<noteq> 2147483647 \<Longrightarrow> sint (w + 1) = sint w + 1"
proof -
  assume "sint w \<noteq> 2147483647"
  with sint_bounds32 [of w] have "- (2 ^ 31) \<le> sint w + 1" "sint w + 1 < 2 ^ 31" by simp_all
  then have "signed_take_bit 31 (sint w + 1) = sint w + 1" by (rule signed_take_bit_int_eq_self)
  then show ?thesis by (simp add: sint_word_ariths)
qed

lemma sint_pred: "sint (w::32 word) \<noteq> - 2147483648 \<Longrightarrow> sint (w - 1) = sint w - 1"
proof -
  assume "sint w \<noteq> - 2147483648"
  with sint_bounds32 [of w] have "- (2 ^ 31) \<le> sint w - 1" "sint w - 1 < 2 ^ 31" by simp_all
  then have "signed_take_bit 31 (sint w - 1) = sint w - 1" by (rule signed_take_bit_int_eq_self)
  then show ?thesis by (simp add: sint_word_ariths)
qed

lemma jint_add_one: "sint (w::32 word) \<noteq> 2147483647 \<Longrightarrow> jint_add w 1 = Inr (w + 1)"
  using sint_bounds32 [of w] by (simp add: jint_add_def)

lemma jint_add_one_max: "jint_add (0x7fffffff::32 word) 1 = Inl SignedOverflow"
  by (simp add: jint_add_def)

lemma jint_sub_one: "sint (w::32 word) \<noteq> - 2147483648 \<Longrightarrow> jint_sub w 1 = Inr (w - 1)"
  using sint_bounds32 [of w] by (simp add: jint_sub_def)

lemma away_test_max: "away_test 0x7fffffff direction \<longleftrightarrow> direction = 0x7fffffff"
proof
  assume "away_test 0x7fffffff direction"
  then have "\<not> sint direction < 2147483647" by (simp add: away_test_def word_sless_alt)
  with sint_bounds32(2) [of direction] have "sint direction = 2147483647" by simp
  then show "direction = 0x7fffffff" by (rule sint_max_eq)
next
  assume "direction = 0x7fffffff"
  then show "away_test 0x7fffffff direction" by (simp add: away_test_def word_sless_alt)
qed

lemma jnextafterf_checked_eq:
  "jnextafterf_checked start direction =
     (if start = 0x7fffffff \<and> direction = 0x7fffffff then Inl SignedOverflow
      else Inr (jnextafterf start direction))"
proof (cases "start AND 0x7fffffff = 0")
  case True
  moreover from True have "start \<noteq> 0x7fffffff" by auto
  ultimately show ?thesis by (simp add: jnextafterf_checked_def jnextafterf_def)
next
  case nz: False
  show ?thesis
  proof (cases "away_test start direction")
    case True
    show ?thesis
    proof (cases "start = 0x7fffffff")
      case mx: True
      with True have "direction = 0x7fffffff" by (simp add: away_test_max)
      with mx show ?thesis
        by (simp add: jnextafterf_checked_def jint_add_one_max away_test_max)
    next
      case False
      then have "sint start \<noteq> 2147483647" using sint_max_eq by blast
      then have "jint_add start 1 = Inr (start + 1)" by (rule jint_add_one)
      with nz True False show ?thesis by (simp add: jnextafterf_checked_def jnextafterf_def)
    qed
  next
    case False
    then have ne: "\<not> (start = 0x7fffffff \<and> direction = 0x7fffffff)" by (auto simp: away_test_max)
    from nz have "sint start \<noteq> - 2147483648" using sint_min_eq by blast
    then have "jint_sub start 1 = Inr (start - 1)" by (rule jint_sub_one)
    with nz False ne show ?thesis by (simp add: jnextafterf_checked_def jnextafterf_def)
  qed
qed

section \<open>Any direction that is not below a negative start\<close>

lemma sign_pos_inf: "\<not> sign_bit pos_inf"
  by (simp add: sign_bit_def pos_inf_def)

lemma toward_nonneg:
  assumes fin: "is_finite x" and lt: "float_lt x y" and sg: "\<not> (sign_bit x \<and> sign_bit y)"
  shows "jnextafterf x y = jnextafterf x pos_inf"
proof -
  from lt have nx: "\<not> is_nan x" and ny: "\<not> is_nan y" by (simp_all add: float_lt_def)
  from lt nx ny have key: "skey x < skey y" by (simp add: float_lt_key)
  obtain u where u: "unat x = u" by simp
  obtain v where v: "unat y = v" by simp
  have bu: "u < 4294967296" using unat_lt32 [of x] by (simp add: u)
  consider (low) "u < 2139095040" | (mid) "2139095040 \<le> u" "u < 2147483648"
    | (nz) "u = 2147483648" | (neg) "2147483648 < u" by linarith
  then show ?thesis
  proof cases
    case low
    then have kx: "skey x = int (smag u)" by (simp add: skey_low u)
    with key have "0 < skey y" by simp
    then have sy: "\<not> sign_bit y" by (rule skey_sign)
    then have vl: "v < 2147483648" by (simp add: sign_bit_nat v)
    then have "skey y = int (smag v)" by (simp add: skey_low v)
    with key kx have uv: "u < v" by (simp add: smag_less_iff)
    from low have up: "jnextafterf x pos_inf = x + 1" by (simp add: up_low u)
    show ?thesis
    proof (cases "u = 0")
      case True
      then have "mbits x = 0" by (simp add: mbits_def u)
      then have "x AND 0x7fffffff = 0" by (simp only: and_mask_zero_iff)
      then show ?thesis using sy by (simp add: jnextafterf_def sign_or sign_pos_inf)
    next
      case False
      with low have "mbits x \<noteq> 0" by (simp add: mbits_low u)
      then have nzx: "x AND 0x7fffffff \<noteq> 0" by (simp add: and_mask_zero_iff)
      have "away_test x y"
        unfolding away_test_def word_sless_alt sint_nat [of x] sint_nat [of y] u v
        using low False vl uv by simp
      with nzx up show ?thesis by (simp add: jnextafterf_def)
    qed
  next
    case mid
    then have "mbits x = u" by (simp add: mbits_low u)
    with mid fin show ?thesis by (simp add: is_finite_iff)
  next
    case nz
    then have sx: "sign_bit x" by (simp add: sign_bit_nat u)
    with sg have sy: "\<not> sign_bit y" by simp
    from nz have "mbits x = 0" by (simp add: mbits_def u)
    then have "x AND 0x7fffffff = 0" by (simp only: and_mask_zero_iff)
    then show ?thesis using sy by (simp add: jnextafterf_def sign_or sign_pos_inf)
  next
    case neg
    then have sx: "sign_bit x" by (simp add: sign_bit_nat u)
    with sg have sy: "\<not> sign_bit y" by simp
    then have vl: "v < 2147483648" by (simp add: sign_bit_nat v)
    from neg have "mbits x \<noteq> 0" by (simp add: mbits_high u)
    then have nzx: "x AND 0x7fffffff \<noteq> 0" by (simp add: and_mask_zero_iff)
    have "\<not> away_test x y"
      unfolding away_test_def word_sless_alt sint_nat [of x] sint_nat [of y] u v
      using neg bu vl by simp
    moreover from neg have "jnextafterf x pos_inf = x - 1" by (simp add: up_neg u)
    ultimately show ?thesis using nzx by (simp add: jnextafterf_def)
  qed
qed

lemma nextafterf_up_unless_both_negative:
  assumes "is_finite x" "float_lt x y" "\<not> (sign_bit x \<and> sign_bit y)"
  shows "succ_of x (jnextafterf x y)"
  using step_ok [OF assms(1)] toward_nonneg [OF assms] by simp


section \<open>The claims\<close>

text \<open>
  Claim C1: for every finite \<open>x\<close> and every \<open>y\<close> with \<open>y > x\<close>, \<open>nextafterf(x, y)\<close> is
  strictly greater than \<open>x\<close> and no float lies strictly between \<open>x\<close> and it.
  The routine misses this when \<open>x\<close> is negative and \<open>y\<close> carries the sign bit too. At
  \<open>x = -2.0\<close> (\<open>0xC0000000\<close>) and \<open>y = -1.0\<close> (\<open>0xBF800000\<close>) we have \<open>y > x\<close>, the
  routine returns \<open>0xC0000001\<close>, and that value is below \<open>x\<close>. (Lemma
  \<open>nextafterf_up_unless_both_negative\<close> above shows that the property holds in every other
  case.)
\<close>

theorem nextafterf_negative_pair_moves_away:
  "is_finite 0xC0000000 \<and> float_lt 0xC0000000 0xBF800000 \<and>
   jnextafterf 0xC0000000 0xBF800000 = 0xC0000001 \<and>
   float_lt (jnextafterf 0xC0000000 0xBF800000) 0xC0000000 \<and>
   \<not> float_lt 0xC0000000 (jnextafterf 0xC0000000 0xBF800000)"
  by (simp add: jnextafterf_def away_test_def word_sless_alt float_lt_def is_finite_def is_nan_def is_inf_def
      expo_def mant_def valof_def magn_def sign_bit_def)




text \<open>
  Claim C3: for a \<open>start\<close> whose magnitude bits are all zero (plus or minus zero) and any
  \<open>direction\<close>, the result is the sign bit of \<open>direction\<close> ORed with 1: \<open>0x80000001\<close> when
  the sign bit of \<open>direction\<close> is set and \<open>0x00000001\<close> otherwise. In particular
  \<open>nextafterf(0.0, 1.0) = 0x00000001\<close>, \<open>nextafterf(0.0, -1.0) = 0x80000001\<close> and
  \<open>nextafterf(-0.0, 1.0) = 0x00000001\<close>.
\<close>

theorem nextafterf_zero_start:
  "(is_zero start \<longrightarrow>
      jnextafterf start direction = (direction AND 0x80000000) OR 0x1 \<and>
      jnextafterf start direction = (if sign_bit direction then 0x80000001 else 0x00000001)) \<and>
   jnextafterf 0x00000000 0x3F800000 = 0x00000001 \<and>
   jnextafterf 0x00000000 0xBF800000 = 0x80000001 \<and>
   jnextafterf 0x80000000 0x3F800000 = 0x00000001"
  by (simp add: jnextafterf_def is_zero_iff sign_or)

theorem nextafterf_zero_start_witness:
  "is_zero 0x80000000 \<and> jnextafterf 0x80000000 0xBF800000 = 0x80000001"
proof -
  have z: "is_zero 0x80000000" by (simp add: is_zero_def expo_def mant_def)
  have s: "sign_bit 0xBF800000" by (simp add: sign_bit_def)
  from nextafterf_zero_start [of "0x80000000" "0xBF800000"] z s show ?thesis by simp
qed

text \<open>
  Claim C4: for a nonzero \<open>start\<close> the test \<open>(hx > 0) ^ (hx > hy)\<close> is true exactly when
  \<open>|start| < |direction|\<close>, and the routine increments \<open>hx\<close> when the magnitude must grow
  and decrements it when the magnitude must shrink.
  The source states the same in its comment on the test, and the test does not meet it for
  a negative \<open>start\<close> with a negative \<open>direction\<close>. At \<open>start = -2.0\<close>, \<open>direction = -1.0\<close>
  the test is true although \<open>|start| > |direction|\<close>, and the magnitude grows; at
  \<open>start = -1.0\<close>, \<open>direction = -2.0\<close> the test is false although
  \<open>|start| < |direction|\<close>, and the magnitude shrinks.
\<close>

theorem away_test_inverted_for_negative_pair:
  "away_test 0xC0000000 0xBF800000 \<and> \<not> mag_lt 0xC0000000 0xBF800000 \<and>
   jnextafterf 0xC0000000 0xBF800000 = 0xC0000000 + 1 \<and>
   mag_lt 0xC0000000 (jnextafterf 0xC0000000 0xBF800000) \<and>
   \<not> away_test 0xBF800000 0xC0000000 \<and> mag_lt 0xBF800000 0xC0000000 \<and>
   jnextafterf 0xBF800000 0xC0000000 = 0xBF800000 - 1 \<and>
   mag_lt (jnextafterf 0xBF800000 0xC0000000) 0xBF800000"
  by (simp add: jnextafterf_def away_test_def word_sless_alt mag_lt_def
      expo_def mant_def valof_def magn_def sign_bit_def)

text \<open>
  Claim C5: \<open>nextafterf(-x, -y) = -nextafterf(x, y)\<close> for all finite nonzero \<open>x\<close> and \<open>y\<close>.
  The routine breaks the symmetry at \<open>x = 1.0\<close>, \<open>y = 2.0\<close>: \<open>nextafterf(-1.0, -2.0)\<close> is
  \<open>0xBF7FFFFF\<close> while \<open>-nextafterf(1.0, 2.0)\<close> is \<open>0xBF800001\<close>.
\<close>

theorem nextafterf_negation_not_symmetric:
  "is_finite 0x3F800000 \<and> is_finite 0x40000000 \<and> \<not> is_zero 0x3F800000 \<and> \<not> is_zero 0x40000000 \<and>
   jnextafterf (fneg 0x3F800000) (fneg 0x40000000) = 0xBF7FFFFF \<and>
   fneg (jnextafterf 0x3F800000 0x40000000) = 0xBF800001 \<and>
   jnextafterf (fneg 0x3F800000) (fneg 0x40000000) \<noteq> fneg (jnextafterf 0x3F800000 0x40000000)"
  by (simp add: jnextafterf_def away_test_def word_sless_alt fneg_def is_finite_def is_zero_def expo_def mant_def)

text \<open>
  Claim C6: from every finite \<open>x\<close>, repeating \<open>x \<mapsto> nextafterf(x, +infinity)\<close> arrives at
  plus infinity after finitely many steps; every value before that is finite, each step
  goes to the immediate successor (strictly greater, with no float strictly between), and
  the sequence is strictly increasing.
\<close>

theorem climb_reaches_pos_inf:
  assumes "is_finite x"
  shows "\<exists>n. climb n x = pos_inf \<and>
           (\<forall>k<n. is_finite (climb k x) \<and> succ_of (climb k x) (climb (Suc k) x)) \<and>
           (\<forall>i j. i < j \<and> j \<le> n \<longrightarrow> float_lt (climb i x) (climb j x))"
proof -
  from assms have "reaches x" by (rule finite_reaches)
  then obtain n where n: "climb n x = pos_inf" "\<forall>k<n. is_finite (climb k x)"
    unfolding reaches_def by blast
  have st: "\<forall>k<n. is_finite (climb k x) \<and> succ_of (climb k x) (climb (Suc k) x)"
    using n(2) by (simp only: climb_Suc_right) (blast intro: step_ok)
  then have "\<forall>k<n. float_lt (climb k x) (climb (Suc k) x)" by (simp add: succ_of_def)
  then have "\<forall>i j. i < j \<and> j \<le> n \<longrightarrow> float_lt (climb i x) (climb j x)"
    by (blast intro: climb_increasing)
  with n(1) st show ?thesis by blast
qed

theorem climb_reaches_pos_inf_witness:
  "is_finite 0x7F7FFFFF \<and>
   (\<exists>n. climb n 0x7F7FFFFF = pos_inf \<and>
      (\<forall>k<n. is_finite (climb k 0x7F7FFFFF) \<and> succ_of (climb k 0x7F7FFFFF) (climb (Suc k) 0x7F7FFFFF)) \<and>
      (\<forall>i j. i < j \<and> j \<le> n \<longrightarrow> float_lt (climb i 0x7F7FFFFF) (climb j 0x7F7FFFFF)))"
proof -
  have h: "is_finite 0x7F7FFFFF" by (simp add: is_finite_def expo_def)
  show ?thesis using h climb_reaches_pos_inf [OF h] by simp
qed

text \<open>
  Claim C7: when \<open>start\<close> is plus infinity and the test selects the increment, as it does
  for \<open>nextafterf(+infinity, +infinity)\<close>, the result is the pattern \<open>0x7F800001\<close>, a NaN:
  the routine does not stop at infinity.
\<close>

theorem nextafterf_pos_inf_increment:
  "(away_test pos_inf direction \<longrightarrow>
      jnextafterf pos_inf direction = 0x7F800001 \<and> is_nan (jnextafterf pos_inf direction)) \<and>
   is_inf pos_inf \<and> \<not> sign_bit pos_inf \<and> away_test pos_inf pos_inf \<and>
   jnextafterf pos_inf pos_inf = 0x7F800001"
  by (simp add: jnextafterf_def pos_inf_def away_test_def word_sless_alt is_nan_def is_inf_def expo_def mant_def sign_bit_def)

theorem nextafterf_pos_inf_increment_witness:
  "away_test pos_inf pos_inf \<and> jnextafterf pos_inf pos_inf = 0x7F800001 \<and> is_nan (jnextafterf pos_inf pos_inf)"
proof -
  have h: "away_test pos_inf pos_inf" by (simp add: away_test_def pos_inf_def word_sless_alt)
  with nextafterf_pos_inf_increment [of pos_inf] show ?thesis by blast
qed

text \<open>
  Claim C8: \<open>nextafterf\<close> is total on all pairs of 32-bit patterns: every pair, NaNs
  included, gives a defined pattern and no error.
  The routine has one pair without a defined result. For the NaN \<open>0x7FFFFFFF\<close> as
  \<open>start\<close> and as \<open>direction\<close> the test selects the increment, and \<open>hx += 1\<close> on the largest
  \<open>jint\<close> leaves the range of the type. (Lemma \<open>jnextafterf_checked_eq\<close> above shows that
  every other pair gives a pattern, the one that the wrapping routine computes.)
\<close>

theorem nextafterf_overflows_at_largest_nan:
  "is_nan 0x7FFFFFFF \<and> 0x7FFFFFFF AND (0x7fffffff::32 word) \<noteq> 0 \<and>
   away_test 0x7FFFFFFF 0x7FFFFFFF \<and> sint (0x7FFFFFFF::32 word) + sint (1::32 word) = 2147483648 \<and>
   jint_add 0x7FFFFFFF 1 = Inl SignedOverflow \<and>
   jnextafterf_checked 0x7FFFFFFF 0x7FFFFFFF = Inl SignedOverflow"
  by (simp add: jnextafterf_checked_def jint_add_def away_test_def word_sless_alt
      is_nan_def expo_def mant_def)

text \<open>
  Claim C9, as stated, lists \<open>nextafter\<close> among the delegated operations and also says
  that two next-representable-float routines are computed inside this layer. Only the
  single-precision routine is: the result of the double-precision \<open>nextafter\<close> follows the
  library it is given, here two libraries that differ in \<open>ieee_nextafter\<close>, at the
  arguments \<open>1.0\<close> and \<open>2.0\<close>.
\<close>

theorem jnextafter_follows_library_counterexample:
  "jnextafter lib_first 0x3FF0000000000000 0x4000000000000000 \<noteq>
   jnextafter lib_second 0x3FF0000000000000 0x4000000000000000"
  by (simp add: jnextafter_def lib_first_def lib_second_def lib_with_def)

text \<open>
  Claim C9, amended: each of the twenty-four double-precision operations, \<open>nextafter\<close>
  included, returns the value of the corresponding library function on the same arguments;
  the only operation computed inside this layer is the single-precision \<open>nextafterf\<close>.
\<close>

theorem double_bindings_delegate:
  "jsin lib a = ieee_sin lib a \<and> jcos lib a = ieee_cos lib a \<and> jtan lib a = ieee_tan lib a \<and>
   jasin lib a = ieee_asin lib a \<and> jacos lib a = ieee_acos lib a \<and> jatan lib a = ieee_atan lib a \<and>
   jexp lib a = ieee_exp lib a \<and> jlog lib a = ieee_log lib a \<and> jsqrt2 lib a = ieee_sqrt lib a \<and>
   jieee_remainder lib a b = ieee_remainder lib a b \<and>
   jfloor lib a = ieee_floor lib a \<and> jceil lib a = ieee_ceil lib a \<and> jrint lib a = ieee_rint lib a \<and>
   jatan2 lib a b = ieee_atan2 lib a b \<and> jpow lib a b = ieee_pow lib a b \<and>
   jsinh lib a = ieee_sinh lib a \<and> jtanh lib a = ieee_tanh lib a \<and> jcosh lib a = ieee_cosh lib a \<and>
   jlog10 lib a = ieee_log10 lib a \<and> jcbrt lib a = ieee_cbrt lib a \<and> jexpm1 lib a = ieee_expm1 lib a \<and>
   jhypot lib a b = ieee_hypot lib a b \<and> jlog1p lib a = ieee_log1p lib a \<and>
   jnextafter lib a b = ieee_nextafter lib a b \<and>
   jnextafterf x y =
     (if x AND 0x7fffffff = 0 then (y AND 0x80000000) OR 0x1
      else if (0 <s x) \<noteq> (y <s x) then x + 1 else x - 1)"
  by (simp add: jnextafterf_def away_test_def jsin_def jcos_def jtan_def jasin_def jacos_def jatan_def jexp_def jlog_def
      jsqrt2_def jieee_remainder_def jfloor_def jceil_def jrint_def jatan2_def jpow_def jsinh_def
      jtanh_def jcosh_def jlog10_def jcbrt_def jexpm1_def jhypot_def jlog1p_def jnextafter_def)



end
